theory Spec2Isabelle
  imports Complex_Main "HOL-Library.Stream"
begin

section \<open>Snake game engine (Python Challenge 15, snake.py)\<close>

subsection \<open>Data model\<close>

text \<open>
  \<^verbatim>\<open>class Direction(Enum)\<close>: each member carries its unit vector as its value.
\<close>

datatype Direction = UP | DOWN | LEFT | RIGHT

fun direction_value :: "Direction \<Rightarrow> int \<times> int" where
  "direction_value UP = (0, -1)"
| "direction_value DOWN = (0, 1)"
| "direction_value LEFT = (-1, 0)"
| "direction_value RIGHT = (1, 0)"

datatype GameState = MENU | PLAYING | GAME_OVER | PAUSED

text \<open>
  \<^verbatim>\<open>@dataclass class Position\<close> with fields \<open>x\<close>, \<open>y\<close>. Its \<open>__eq__\<close> compares both
  coordinates, which is the structural equality of the datatype; Python's
  \<open>pos in self.snake\<close> is therefore membership in the set of list elements.
\<close>

datatype Position = Position (pos_x: int) (pos_y: int)

text \<open>\<^verbatim>\<open>Position.__add__(self, other)\<close>: \<open>other\<close> is a Direction.\<close>

definition pos_add :: "Position \<Rightarrow> Direction \<Rightarrow> Position" where
  "pos_add p d = Position (pos_x p + fst (direction_value d)) (pos_y p + snd (direction_value d))"

text \<open>
  \<^verbatim>\<open>@dataclass class GameConfig\<close>. The \<open>speeds\<close> dictionary is only ever read from a
  default-constructed configuration (\<open>GameConfig().speeds[difficulty]\<close>), so it is the
  constant table \<open>speeds\<close> below.
\<close>

record GameConfig =
  board_width :: int
  board_height :: int
  initial_length :: int

definition default_config :: GameConfig where
  "default_config = \<lparr>board_width = 20, board_height = 15, initial_length = 3\<rparr>"

datatype Difficulty = Easy | Medium | Hard | Expert

fun speeds :: "Difficulty \<Rightarrow> int" where
  "speeds Easy = 1000"
| "speeds Medium = 600"
| "speeds Hard = 300"
| "speeds Expert = 150"

text \<open>
  \<^verbatim>\<open>@dataclass class GameStats\<close>, the all-time statistics kept in the session. Three of
  its fields share their names with attributes of the game object and carry the prefix
  \<open>stats_\<close> here.
\<close>

record GameStats =
  stats_score :: int
  stats_food_eaten :: int
  time_played :: real
  stats_moves_made :: int
  high_score :: int
  games_played :: int

text \<open>The attributes of a \<^verbatim>\<open>SnakeGame\<close> instance, as \<open>reset_game\<close> assigns them.\<close>

record SnakeGame =
  config :: GameConfig
  snake :: "Position list"
  direction :: Direction
  food :: Position
  score :: int
  food_eaten :: int
  start_time :: real
  moves_made :: int
  game_state :: GameState

text \<open>
  The part of \<open>st.session_state\<close> that \<open>main\<close> reads and writes: the game object, the time
  of the last automatic move and the all-time statistics.
\<close>

record Session =
  game :: SnakeGame
  last_move_time :: real
  game_stats :: GameStats

datatype py_error = ValueError | IndexError

subsection \<open>The random source\<close>

text \<open>
  The state of Python's \<open>random\<close> module is an explicit argument: the infinite stream
  of raw numbers it has yet to hand out. \<open>random.randint(a, b)\<close> raises ValueError on an
  empty range and otherwise consumes one raw number and returns an integer of
  \<open>[a, b]\<close>; every sequence of results the real generator can produce arises from some
  sequence of raw numbers.
\<close>

type_synonym rng = "nat stream"

definition randint :: "int \<Rightarrow> int \<Rightarrow> rng \<Rightarrow> py_error + (int \<times> rng)" where
  "randint a b r =
     (if b < a then Inl ValueError
      else Inr (a + int (shd r) mod (b - a + 1), stl r))"

subsection \<open>SnakeGame methods\<close>

text \<open>
  \<open>generate_food\<close> is a \<open>while True\<close> loop that draws a position until it is not on the
  snake. It reads \<open>self.config\<close> and \<open>self.snake\<close> only, which are its first two
  arguments. A run that never leaves the loop has the value \<open>None\<close>; \<open>Some (Inl e)\<close> is a
  raised exception and \<open>Some (Inr (p, r'))\<close> the returned position with the rest of the
  random source.
\<close>

partial_function (option) generate_food ::
  "GameConfig \<Rightarrow> Position list \<Rightarrow> rng \<Rightarrow> (py_error + Position \<times> rng) option" where
  "generate_food cfg sn r =
     (case randint 0 (board_width cfg - 1) r of
        Inl e \<Rightarrow> Some (Inl e)
      | Inr (px, r1) \<Rightarrow>
          (case randint 0 (board_height cfg - 1) r1 of
             Inl e \<Rightarrow> Some (Inl e)
           | Inr (py, r2) \<Rightarrow>
               (if Position px py \<notin> set sn then Some (Inr (Position px py, r2))
                else generate_food cfg sn r2)))"

definition is_valid_position :: "GameConfig \<Rightarrow> Position \<Rightarrow> bool" where
  "is_valid_position cfg pos \<longleftrightarrow>
     0 \<le> pos_x pos \<and> pos_x pos < board_width cfg \<and> 0 \<le> pos_y pos \<and> pos_y pos < board_height cfg"

text \<open>
  \<open>SnakeGame.__init__\<close> stores the configuration and calls \<open>reset_game\<close>; \<open>now\<close> is the
  reading of \<open>time.time()\<close>. Python's \<open>//\<close> on integers is floor division, as is \<open>div\<close>
  on \<open>int\<close>.
\<close>

definition reset_game :: "GameConfig \<Rightarrow> real \<Rightarrow> rng \<Rightarrow> (py_error + SnakeGame \<times> rng) option" where
  "reset_game cfg now r =
     (let center_x = board_width cfg div 2;
          center_y = board_height cfg div 2;
          sn = [Position center_x center_y,
                Position (center_x - 1) center_y,
                Position (center_x - 2) center_y]
      in case generate_food cfg sn r of
           None \<Rightarrow> None
         | Some (Inl e) \<Rightarrow> Some (Inl e)
         | Some (Inr (f, r')) \<Rightarrow>
             Some (Inr (\<lparr>config = cfg, snake = sn, direction = RIGHT, food = f, score = 0,
                         food_eaten = 0, start_time = now, moves_made = 0,
                         game_state = PLAYING\<rparr>, r')))"

text \<open>
  \<open>move_snake\<close> returns False on a collision and True after a move. \<open>self.snake[0]\<close>
  raises IndexError on an empty list; \<open>insert(0, new_head)\<close> prepends and \<open>pop()\<close> removes
  the last element of the (then non-empty) list.
\<close>

definition move_snake :: "SnakeGame \<Rightarrow> rng \<Rightarrow> (py_error + bool \<times> SnakeGame \<times> rng) option" where
  "move_snake g r =
     (case snake g of
        [] \<Rightarrow> Some (Inl IndexError)
      | head # _ \<Rightarrow>
          (let new_head = pos_add head (direction g) in
           if \<not> is_valid_position (config g) new_head then Some (Inr (False, g, r))
           else if new_head \<in> set (snake g) then Some (Inr (False, g, r))
           else
             (let g1 = g\<lparr>snake := new_head # snake g, moves_made := moves_made g + 1\<rparr> in
              if new_head = food g1 then
                (let g2 = g1\<lparr>score := score g1 + 10, food_eaten := food_eaten g1 + 1\<rparr> in
                 case generate_food (config g2) (snake g2) r of
                   None \<Rightarrow> None
                 | Some (Inl e) \<Rightarrow> Some (Inl e)
                 | Some (Inr (f, r')) \<Rightarrow> Some (Inr (True, g2\<lparr>food := f\<rparr>, r')))
              else Some (Inr (True, g1\<lparr>snake := butlast (snake g1)\<rparr>, r)))))"

text \<open>The dictionary \<open>opposite\<close> inside \<open>change_direction\<close>; it has all four keys.\<close>

fun opposite :: "Direction \<Rightarrow> Direction" where
  "opposite UP = DOWN"
| "opposite DOWN = UP"
| "opposite LEFT = RIGHT"
| "opposite RIGHT = LEFT"

definition change_direction :: "Direction \<Rightarrow> SnakeGame \<Rightarrow> SnakeGame" where
  "change_direction new_direction g =
     (if new_direction \<noteq> opposite (direction g) then g\<lparr>direction := new_direction\<rparr> else g)"

text \<open>
  \<open>get_game_time\<close>: \<open>now\<close> is the reading of \<open>time.time()\<close> at the call. Clock readings and
  the durations computed from them are real numbers here: the rounding of the float
  operations on them is not modelled.
\<close>

definition get_game_time :: "SnakeGame \<Rightarrow> real \<Rightarrow> real" where
  "get_game_time g now = now - start_time g"

subsection \<open>The handlers of \<open>main\<close>\<close>

text \<open>
  The Pause and Resume buttons (the \<open>if\<close>/\<open>elif\<close> on the game state in the sidebar).
  Each is a no-op in a state where \<open>main\<close> does not offer the button.
\<close>

definition pause_button :: "Session \<Rightarrow> Session" where
  "pause_button s =
     (if game_state (game s) = PLAYING then s\<lparr>game := (game s)\<lparr>game_state := PAUSED\<rparr>\<rparr> else s)"

definition resume_button :: "real \<Rightarrow> Session \<Rightarrow> Session" where
  "resume_button now s =
     (if game_state (game s) \<noteq> PLAYING \<and> game_state (game s) = PAUSED
      then s\<lparr>game := (game s)\<lparr>game_state := PLAYING\<rparr>, last_move_time := now\<rparr>
      else s)"

text \<open>
  The statistics update of the game-over branch. \<open>now\<close> is the reading of \<open>time.time()\<close>
  inside its \<open>get_game_time\<close> call.
\<close>

definition update_stats :: "SnakeGame \<Rightarrow> real \<Rightarrow> GameStats \<Rightarrow> GameStats" where
  "update_stats g now st =
     (let st1 = (if score g > high_score st then st\<lparr>high_score := score g\<rparr> else st) in
      st1\<lparr>games_played := games_played st1 + 1,
          stats_food_eaten := stats_food_eaten st1 + food_eaten g,
          stats_moves_made := stats_moves_made st1 + moves_made g,
          time_played := time_played st1 + get_game_time g now\<rparr>)"

text \<open>
  The automatic move of one script run: it happens when the game is playing (the refresh
  interval \<open>speed_ms\<close> is then non-zero, hence truthy) and at least 80 percent of the
  interval has passed since the last move. A failed \<open>move_snake\<close> ends the game. The block
  reads the clock twice: \<open>current_time\<close> is the reading of \<open>current_time = time.time()\<close>,
  and \<open>stats_time\<close> the later one of the \<open>get_game_time\<close> call in the statistics update.
\<close>

definition auto_move ::
  "real \<Rightarrow> real \<Rightarrow> Difficulty \<Rightarrow> Session \<Rightarrow> rng \<Rightarrow> (py_error + Session \<times> rng) option" where
  "auto_move current_time stats_time difficulty s r =
     (let speed_ms = speeds difficulty in
      if game_state (game s) = PLAYING \<and> speed_ms \<noteq> 0 then
        (let time_since_last_move = (current_time - last_move_time s) * 1000 in
         if time_since_last_move \<ge> real_of_int speed_ms * 0.8 then
           (case move_snake (game s) r of
              None \<Rightarrow> None
            | Some (Inl e) \<Rightarrow> Some (Inl e)
            | Some (Inr (moved, g', r')) \<Rightarrow>
                (let s1 = (if \<not> moved
                           then s\<lparr>game := g'\<lparr>game_state := GAME_OVER\<rparr>,
                                  game_stats := update_stats g' stats_time (game_stats s)\<rparr>
                           else s\<lparr>game := g'\<rparr>)
                 in Some (Inr (s1\<lparr>last_move_time := current_time\<rparr>, r'))))
         else Some (Inr (s, r)))
      else Some (Inr (s, r)))"

text \<open>
  The four direction buttons: each calls \<open>change_direction\<close> only while the game is
  playing.
\<close>

definition direction_button :: "Direction \<Rightarrow> Session \<Rightarrow> Session" where
  "direction_button d s =
     (if game_state (game s) = PLAYING then s\<lparr>game := change_direction d (game s)\<rparr> else s)"

subsection \<open>Script runs\<close>

text \<open>
  The definitions above identify a member of an \<open>Enum\<close> class with its name, as the code
  does within one run of the script. Streamlit runs the whole script anew for every
  interaction, a button press or an automatic refresh. Every run executes the statement
  \<^verbatim>\<open>class GameState(Enum)\<close> again and so creates a new class with new members, while the
  game object kept in \<open>st.session_state\<close> still holds the member that was assigned to
  \<open>game_state\<close> by the run that assigned it. \<open>Enum\<close> defines no \<open>__eq__\<close>, so \<open>==\<close> on
  members is identity: a member is the pair of the run that created its class and its
  name.

  \<open>direction_button_rerun assigned run d\<close> is the direction button for \<open>d\<close> pressed in
  the script run \<open>run\<close>, on a session whose \<open>game_state\<close> was assigned in the run
  \<open>assigned\<close>. Its test \<open>game.game_state == GameState.PLAYING\<close> compares the stored member
  with the member \<open>PLAYING\<close> of the running script. A button is pressed in a later run than
  the one that assigned the state: \<open>st.button\<close> returns True only in the run that the
  click starts, and the runs that assign \<open>game_state\<close> are the first one, which constructs
  the game, and those of New Game, Pause and Resume, which end with \<open>st.rerun()\<close>.
\<close>

definition direction_button_rerun :: "nat \<Rightarrow> nat \<Rightarrow> Direction \<Rightarrow> Session \<Rightarrow> Session" where
  "direction_button_rerun assigned run d s =
     (if (assigned, game_state (game s)) = (run, PLAYING)
      then s\<lparr>game := change_direction d (game s)\<rparr> else s)"

section \<open>Debt settlement optimizer (Python Challenge Day 2, expense_splitter.py)\<close>

subsection \<open>Floating-point arithmetic\<close>

text \<open>
  Amounts are Python floats: IEEE 754 binary64 numbers. A finite double is a real number;
  comparing and negating doubles is exact, and the difference of two doubles is their
  real difference rounded to the nearest double, a tie going to the even significand.
  \<open>round53\<close> rounds a real number to 53 significant bits in that way. Its exponent is
  unbounded: overflow, subnormal numbers, infinities and NaN are not modelled, so
  amounts are taken within the normal range of binary64.
\<close>

definition round_half_even :: "real \<Rightarrow> int" where
  "round_half_even r =
     (let f = \<lfloor>r\<rfloor> in
      if r - of_int f < 1 / 2 then f
      else if r - of_int f > 1 / 2 then f + 1
      else if even f then f else f + 1)"

definition round53 :: "real \<Rightarrow> real" where
  "round53 x =
     (if x = 0 then 0
      else (let e = \<lfloor>log 2 \<bar>x\<bar>\<rfloor>; ulp = 2 powr (of_int e - 52)
            in of_int (round_half_even (x / ulp)) * ulp))"

definition fsub :: "real \<Rightarrow> real \<Rightarrow> real" where
  "fsub a b = round53 (a - b)"

text \<open>The literal \<open>0.01\<close> of the source denotes the double nearest to \<open>1/100\<close>.\<close>

definition lit_0_01 :: real where
  "lit_0_01 = round53 (1 / 100)"

subsection \<open>The optimizer\<close>

text \<open>
  \<open>results\<close> is the dictionary built by \<open>calculate_advanced_split\<close>, in insertion order:
  each name with the \<open>'balance'\<close> entry of its data, the only entry \<open>optimize_payments\<close>
  reads. A dictionary has each key once: \<open>distinct (map fst results)\<close>. A balance is a
  double; the properties below that do not ask for it hold for all real numbers.
\<close>

type_synonym results = "(string \<times> real) list"

text \<open>The dictionaries \<open>{'name': ..., 'amount': ...}\<close> of the debtor and creditor lists.\<close>

record entry =
  name :: string
  amount :: real

text \<open>
  The dictionaries \<open>{'from': ..., 'to': ..., 'amount': ...}\<close> of the result; the keys carry
  the prefix \<open>txn_\<close> here.
\<close>

record transaction =
  txn_from :: string
  txn_to :: string
  txn_amount :: real

text \<open>
  The \<open>for\<close> loop over \<open>results.items()\<close>: it appends each name to \<open>debtors\<close>, to
  \<open>creditors\<close> or to neither, so both lists keep the order of the dictionary.
\<close>

fun classify :: "results \<Rightarrow> entry list \<times> entry list" where
  "classify [] = ([], [])"
| "classify ((n, balance) # rest) =
     (let (debtors, creditors) = classify rest in
      if balance < - lit_0_01 then (\<lparr>name = n, amount = - balance\<rparr> # debtors, creditors)
      else if balance > lit_0_01 then (debtors, \<lparr>name = n, amount = balance\<rparr> # creditors)
      else (debtors, creditors))"

text \<open>
  The \<open>while\<close> loop, with the two lists it updates in place, its indices \<open>i\<close> and \<open>j\<close> and
  the list of transactions it appends to.
\<close>

function while_loop ::
  "entry list \<Rightarrow> entry list \<Rightarrow> nat \<Rightarrow> nat \<Rightarrow> transaction list \<Rightarrow> transaction list" where
  "while_loop debtors creditors i j transactions =
     (if i < length debtors \<and> j < length creditors then
        (let debt = amount (debtors ! i); credit = amount (creditors ! j) in
         if debt < credit then
           while_loop debtors (creditors[j := (creditors ! j)\<lparr>amount := fsub credit debt\<rparr>]) (i + 1) j
             (transactions @ [\<lparr>txn_from = name (debtors ! i), txn_to = name (creditors ! j),
                                txn_amount = debt\<rparr>])
         else if debt > credit then
           while_loop (debtors[i := (debtors ! i)\<lparr>amount := fsub debt credit\<rparr>]) creditors i (j + 1)
             (transactions @ [\<lparr>txn_from = name (debtors ! i), txn_to = name (creditors ! j),
                                txn_amount = credit\<rparr>])
         else
           while_loop debtors creditors (i + 1) (j + 1)
             (transactions @ [\<lparr>txn_from = name (debtors ! i), txn_to = name (creditors ! j),
                                txn_amount = debt\<rparr>]))
      else transactions)"
  by pat_completeness auto
termination
  by (relation "measure (\<lambda>(debtors, creditors, i, j, transactions).
        (length debtors - i) + (length creditors - j))") auto

declare while_loop.simps [simp del]

text \<open>
  \<open>list.sort(key=lambda x: x['amount'], reverse=True)\<close> sorts by descending amount and
  is stable, also with \<open>reverse=True\<close>; so is the insertion sort \<open>sort_key\<close> on the
  negated amount.
\<close>

definition optimize_payments :: "results \<Rightarrow> transaction list" where
  "optimize_payments rs =
     (let (debtors, creditors) = classify rs;
          debtors = sort_key (\<lambda>x. - amount x) debtors;
          creditors = sort_key (\<lambda>x. - amount x) creditors
      in while_loop debtors creditors 0 0 [])"

section \<open>Auxiliary definitions\<close>

subsection \<open>Example states of the game\<close>

text \<open>
  Example states: the game of the specification's scenario (default board, snake of
  length 3 heading right from \<open>(10, 7)\<close>, food at \<open>(15, 7)\<close>, started at time 0), and the
  same game with the snake's head on the right edge of the board.
\<close>

definition scenario_game :: SnakeGame where
  "scenario_game =
     \<lparr>config = default_config,
      snake = [Position 10 7, Position 9 7, Position 8 7],
      direction = RIGHT, food = Position 15 7, score = 0, food_eaten = 0,
      start_time = 0, moves_made = 0, game_state = PLAYING\<rparr>"

definition wall_game :: SnakeGame where
  "wall_game = scenario_game\<lparr>snake := [Position 19 7, Position 18 7, Position 17 7]\<rparr>"

definition no_stats :: GameStats where
  "no_stats = \<lparr>stats_score = 0, stats_food_eaten = 0, time_played = 0, stats_moves_made = 0,
               high_score = 0, games_played = 0\<rparr>"

definition session_of :: "SnakeGame \<Rightarrow> Session" where
  "session_of g = \<lparr>game = g, last_move_time = 0, game_stats = no_stats\<rparr>"

text \<open>
  The scenario game after four moves, its head next to the food; a random source whose
  first draws are 15 and 7, the food cell of the scenario.
\<close>

definition pre_eat_game :: SnakeGame where
  "pre_eat_game =
     scenario_game\<lparr>snake := [Position 14 7, Position 13 7, Position 12 7], moves_made := 4\<rparr>"

definition scenario_rng :: rng where
  "scenario_rng = 15 ## sconst 7"

text \<open>
  A snake that covers the default board, row by row in alternating directions from its
  head at \<open>(0, 0)\<close>, and the game one move earlier: the snake on all cells but \<open>(0, 0)\<close>,
  heading left from \<open>(1, 0)\<close> towards the food on the last free cell.
\<close>

definition board_row :: "int \<Rightarrow> Position list" where
  "board_row y = map (\<lambda>x. Position x y) (if even y then [0..19] else rev [0..19])"

definition full_board_snake :: "Position list" where
  "full_board_snake = concat (map board_row [0..14])"

definition almost_full_game :: SnakeGame where
  "almost_full_game =
     \<lparr>config = default_config, snake = tl full_board_snake, direction = LEFT,
      food = Position 0 0, score = 2960, food_eaten = 296, start_time = 0, moves_made = 5000,
      game_state = PLAYING\<rparr>"

subsection \<open>Notions used to state the properties of the game\<close>

text \<open>
  One pass of the loop of \<open>generate_food\<close> on a board of positive width and height: the
  cell it draws from the random source \<open>r\<close>, and the random source after the pass. The
  cell drawn at attempt \<open>k\<close> (counted from 0) is \<open>food_candidate cfg ((next_draws ^^ k) r)\<close>.
\<close>

definition food_candidate :: "GameConfig \<Rightarrow> rng \<Rightarrow> Position" where
  "food_candidate cfg r =
     Position (int (shd r) mod board_width cfg) (int (shd (stl r)) mod board_height cfg)"

definition next_draws :: "rng \<Rightarrow> rng" where
  "next_draws r = stl (stl r)"

text \<open>
  The states of the game object that can be reached from a freshly constructed game by
  calls of \<open>change_direction\<close> and \<open>move_snake\<close>, with any random source, and by the
  assignments of \<open>main\<close> to \<open>game_state\<close> (pause, resume, game over).
\<close>

inductive reachable :: "SnakeGame \<Rightarrow> bool" where
  fresh: "reset_game cfg now r = Some (Inr (g, r')) \<Longrightarrow> reachable g"
| turned: "reachable g \<Longrightarrow> reachable (change_direction d g)"
| moved: "reachable g \<Longrightarrow> move_snake g r = Some (Inr (ok, g', r')) \<Longrightarrow> reachable g'"
| state_set: "reachable g \<Longrightarrow> reachable (g\<lparr>game_state := st\<rparr>)"

text \<open>
  \<open>n\<close> consecutive calls of \<open>move_snake\<close>, as many automatic moves of \<open>main\<close>; the calls
  stop at the first one that returns False, where \<open>main\<close> ends the game.
\<close>

fun move_n :: "nat \<Rightarrow> SnakeGame \<Rightarrow> rng \<Rightarrow> (py_error + SnakeGame \<times> rng) option" where
  "move_n 0 g r = Some (Inr (g, r))"
| "move_n (Suc n) g r =
     (case move_snake g r of
        None \<Rightarrow> None
      | Some (Inl e) \<Rightarrow> Some (Inl e)
      | Some (Inr (ok, g', r')) \<Rightarrow> if ok then move_n n g' r' else Some (Inr (g', r')))"

subsection \<open>Notions used to state the properties of the optimizer\<close>

text \<open>
  The loop of \<open>optimize_payments\<close> on the parts of the two lists it has not finished
  with, for a given subtraction: \<open>while_loop_settle\<close> below proves that \<open>while_loop\<close>
  computes \<open>settle fsub\<close>. With the exact subtraction of the reals, \<open>settle (-)\<close> is the
  loop without rounding.
\<close>

fun settle :: "(real \<Rightarrow> real \<Rightarrow> real) \<Rightarrow> entry list \<Rightarrow> entry list \<Rightarrow> transaction list" where
  "settle sub (d # ds) (c # cs) =
     (if amount d < amount c then
        \<lparr>txn_from = name d, txn_to = name c, txn_amount = amount d\<rparr>
          # settle sub ds (c\<lparr>amount := sub (amount c) (amount d)\<rparr> # cs)
      else if amount d > amount c then
        \<lparr>txn_from = name d, txn_to = name c, txn_amount = amount c\<rparr>
          # settle sub (d\<lparr>amount := sub (amount d) (amount c)\<rparr> # ds) cs
      else \<lparr>txn_from = name d, txn_to = name c, txn_amount = amount d\<rparr> # settle sub ds cs)"
| "settle sub [] cs = []"
| "settle sub ds [] = []"

text \<open>
  The numbers that are a whole number \<open>m\<close> of units \<open>2^k\<close> with \<open>|m| \<le> 2^53\<close>. Every such
  number is a double, and the difference of two positive ones is again one, so that no
  subtraction of the loop rounds when all balances are whole numbers of the same unit.
\<close>

definition on_grid :: "int \<Rightarrow> real \<Rightarrow> bool" where
  "on_grid k x \<longleftrightarrow>
     x / 2 powr (of_int k) = of_int \<lfloor>x / 2 powr (of_int k)\<rfloor> \<and> \<bar>x / 2 powr (of_int k)\<bar> \<le> 2 ^ 53"

text \<open>Sums over a list of entries: of all amounts, and of the amounts under one name.\<close>

definition total_amount :: "entry list \<Rightarrow> real" where
  "total_amount es = sum_list (map amount es)"

definition owed :: "string \<Rightarrow> entry list \<Rightarrow> real" where
  "owed n es = sum_list (map amount (filter (\<lambda>e. name e = n) es))"

text \<open>What a participant pays and receives in a list of transactions.\<close>

definition sent :: "string \<Rightarrow> transaction list \<Rightarrow> real" where
  "sent n ts = sum_list (map txn_amount (filter (\<lambda>t. txn_from t = n) ts))"

definition received :: "string \<Rightarrow> transaction list \<Rightarrow> real" where
  "received n ts = sum_list (map txn_amount (filter (\<lambda>t. txn_to t = n) ts))"

text \<open>
  The total owed by the participants the code takes as debtors (balance below \<open>-0.01\<close>)
  and the total due to those it takes as creditors (balance above \<open>0.01\<close>), as sums of
  real numbers.
\<close>

definition debt_total :: "results \<Rightarrow> real" where
  "debt_total rs = total_amount (fst (classify rs))"

definition credit_total :: "results \<Rightarrow> real" where
  "credit_total rs = total_amount (snd (classify rs))"

text \<open>The input balance of a participant; 0 for a name that is not in the dictionary.\<close>

definition balance_of :: "results \<Rightarrow> string \<Rightarrow> real" where
  "balance_of rs n = (case map_of rs n of Some b \<Rightarrow> b | None \<Rightarrow> 0)"

text \<open>
  Carrying out a transfer, in the arithmetic of the real numbers. A balance is what a
  participant is still owed (negative: what the participant still owes), so a payment
  raises the balance of the sender, who owes less, and lowers the balance of the
  receiver, who is owed less.
\<close>

definition apply_transfer :: "transaction \<Rightarrow> (string \<Rightarrow> real) \<Rightarrow> (string \<Rightarrow> real)" where
  "apply_transfer t bal =
     (let bal1 = bal(txn_from t := bal (txn_from t) + txn_amount t)
      in bal1(txn_to t := bal1 (txn_to t) - txn_amount t))"

definition apply_transfers :: "transaction list \<Rightarrow> (string \<Rightarrow> real) \<Rightarrow> (string \<Rightarrow> real)" where
  "apply_transfers ts bal = fold apply_transfer ts bal"

definition settled_balances :: "results \<Rightarrow> string \<Rightarrow> real" where
  "settled_balances rs = apply_transfers (optimize_payments rs) (balance_of rs)"





definition unbalanced :: results where
  "unbalanced = [(''A'', 30), (''B'', - 10)]"

definition large_balances :: results where
  "large_balances =
     [(''A'', 9007199254740992), (''B'', - (9007199254740991 / 2)),
      (''C'', - (9007199254740991 / 2)), (''D'', - 1)]"

section \<open>Properties of the snake game\<close>

subsection \<open>Food generation\<close>

lemma generate_food_unfold:
  "0 < board_width cfg \<Longrightarrow> 0 < board_height cfg \<Longrightarrow>
   generate_food cfg sn r =
     (if food_candidate cfg r \<notin> set sn then Some (Inr (food_candidate cfg r, next_draws r))
      else generate_food cfg sn (next_draws r))"
  by (subst generate_food.simps) (simp add: randint_def food_candidate_def next_draws_def)

lemma generate_food_no_width:
  "board_width cfg \<le> 0 \<Longrightarrow> generate_food cfg sn r = Some (Inl ValueError)"
  by (subst generate_food.simps) (simp add: randint_def)

lemma generate_food_no_height:
  "0 < board_width cfg \<Longrightarrow> board_height cfg \<le> 0 \<Longrightarrow> generate_food cfg sn r = Some (Inl ValueError)"
  by (subst generate_food.simps) (simp add: randint_def)

lemma candidate_valid:
  "0 < board_width cfg \<Longrightarrow> 0 < board_height cfg \<Longrightarrow> is_valid_position cfg (food_candidate cfg r)"
  by (simp add: is_valid_position_def food_candidate_def)

lemma generate_food_result:
  assumes "generate_food cfg sn r = Some y"
  shows "if 0 < board_width cfg \<and> 0 < board_height cfg
    then \<exists>p r'. y = Inr (p, r') \<and> p \<notin> set sn \<and> is_valid_position cfg p
    else y = Inl ValueError"
proof (rule generate_food.raw_induct
    [where P = "\<lambda>cfg sn r y. if 0 < board_width cfg \<and> 0 < board_height cfg
        then \<exists>p r'. y = Inr (p, r') \<and> p \<notin> set sn \<and> is_valid_position cfg p
        else y = Inl ValueError", OF _ assms])
  fix gf c s g z
  assume IH: "\<And>c s g z. gf c s g = Some z \<Longrightarrow>
      (if 0 < board_width c \<and> 0 < board_height c
       then \<exists>p r'. z = Inr (p, r') \<and> p \<notin> set s \<and> is_valid_position c p
       else z = Inl ValueError)"
    and step: "(case randint 0 (board_width c - 1) g of
        Inl e \<Rightarrow> Some (Inl e)
      | Inr (px, r1) \<Rightarrow>
          (case randint 0 (board_height c - 1) r1 of
             Inl e \<Rightarrow> Some (Inl e)
           | Inr (py, r2) \<Rightarrow>
               (if Position px py \<notin> set s then Some (Inr (Position px py, r2))
                else gf c s r2))) = Some z"
  show "if 0 < board_width c \<and> 0 < board_height c
       then \<exists>p r'. z = Inr (p, r') \<and> p \<notin> set s \<and> is_valid_position c p
       else z = Inl ValueError"
  proof (cases "0 < board_width c \<and> 0 < board_height c")
    case False
    with step show ?thesis
      by (auto simp: randint_def split: if_splits)
  next
    case True
    show ?thesis
    proof (cases "food_candidate c g \<in> set s")
      case False
      with True step have "z = Inr (food_candidate c g, next_draws g)"
        by (simp add: randint_def food_candidate_def next_draws_def)
      with True False show ?thesis
        by (simp add: candidate_valid)
    next
      case hit: True
      with True step have "gf c s (next_draws g) = Some z"
        by (simp add: randint_def food_candidate_def next_draws_def)
      from IH [OF this] show ?thesis .
    qed
  qed
qed

lemma generate_food_sound:
  "generate_food cfg sn r = Some (Inr (p, r')) \<Longrightarrow> p \<notin> set sn \<and> is_valid_position cfg p"
  using generate_food_result [of cfg sn r "Inr (p, r')"] by (auto split: if_splits)

lemma generate_food_diverges:
  assumes "0 < board_width cfg" and "0 < board_height cfg"
    and "\<forall>p. is_valid_position cfg p \<longrightarrow> p \<in> set sn"
  shows "generate_food cfg sn r = None"
proof (cases "generate_food cfg sn r")
  case None
  then show ?thesis .
next
  case (Some y)
  from generate_food_result [OF this] assms show ?thesis by auto
qed



lemma generate_food_returns:
  assumes "0 < board_width cfg" and "0 < board_height cfg"
  shows "food_candidate cfg ((next_draws ^^ k) r) \<notin> set sn \<Longrightarrow>
    \<exists>j\<le>k. generate_food cfg sn r
        = Some (Inr (food_candidate cfg ((next_draws ^^ j) r), (next_draws ^^ Suc j) r))
      \<and> food_candidate cfg ((next_draws ^^ j) r) \<notin> set sn"
proof (induction k arbitrary: r)
  case 0
  then show ?case using generate_food_unfold [OF assms, of sn r] by simp
next
  case (Suc k)
  show ?case
  proof (cases "food_candidate cfg r \<in> set sn")
    case False
    then have "generate_food cfg sn r = Some (Inr (food_candidate cfg r, next_draws r))"
      using generate_food_unfold [OF assms, of sn r] by simp
    with False show ?thesis by (intro exI [of _ 0]) simp
  next
    case True
    from Suc.prems have "food_candidate cfg ((next_draws ^^ k) (next_draws r)) \<notin> set sn"
      by (simp add: funpow_swap1)
    from Suc.IH [OF this] obtain j where j: "j \<le> k"
      "generate_food cfg sn (next_draws r)
        = Some (Inr (food_candidate cfg ((next_draws ^^ j) (next_draws r)),
                     (next_draws ^^ Suc j) (next_draws r)))"
      "food_candidate cfg ((next_draws ^^ j) (next_draws r)) \<notin> set sn"
      by blast
    from True have "generate_food cfg sn r = generate_food cfg sn (next_draws r)"
      using generate_food_unfold [OF assms, of sn r] by simp
    with j show ?thesis
      by (intro exI [of _ "Suc j"]) (simp add: funpow_swap1)
  qed
qed

subsection \<open>Construction and moves\<close>

lemma reset_game_result:
  assumes "reset_game cfg now r = Some (Inr (g, r'))"
  shows "\<exists>f. generate_food cfg
            [Position (board_width cfg div 2) (board_height cfg div 2),
             Position (board_width cfg div 2 - 1) (board_height cfg div 2),
             Position (board_width cfg div 2 - 2) (board_height cfg div 2)] r = Some (Inr (f, r'))
        \<and> g = \<lparr>config = cfg,
                snake = [Position (board_width cfg div 2) (board_height cfg div 2),
                         Position (board_width cfg div 2 - 1) (board_height cfg div 2),
                         Position (board_width cfg div 2 - 2) (board_height cfg div 2)],
                direction = RIGHT, food = f, score = 0, food_eaten = 0, start_time = now,
                moves_made = 0, game_state = PLAYING\<rparr>"
proof (cases "generate_food cfg
            [Position (board_width cfg div 2) (board_height cfg div 2),
             Position (board_width cfg div 2 - 1) (board_height cfg div 2),
             Position (board_width cfg div 2 - 2) (board_height cfg div 2)] r")
  case None
  with assms show ?thesis by (auto simp: reset_game_def Let_def)
next
  case (Some y)
  show ?thesis
  proof (cases y)
    case (Inl e)
    with Some assms show ?thesis by (auto simp: reset_game_def Let_def)
  next
    case (Inr pr)
    obtain f r2 where "pr = (f, r2)" by (cases pr)
    with Inr Some assms show ?thesis by (auto simp: reset_game_def Let_def)
  qed
qed

lemma move_snake_empty: "snake g = [] \<Longrightarrow> move_snake g r = Some (Inl IndexError)"
  by (simp add: move_snake_def)

lemma move_snake_collision:
  "snake g = head # rest \<Longrightarrow>
   \<not> is_valid_position (config g) (pos_add head (direction g))
     \<or> pos_add head (direction g) \<in> set (snake g) \<Longrightarrow>
   move_snake g r = Some (Inr (False, g, r))"
  by (auto simp: move_snake_def Let_def)

lemma move_snake_plain:
  "snake g = head # rest \<Longrightarrow>
   is_valid_position (config g) (pos_add head (direction g)) \<Longrightarrow>
   pos_add head (direction g) \<notin> set (snake g) \<Longrightarrow>
   pos_add head (direction g) \<noteq> food g \<Longrightarrow>
   move_snake g r =
     Some (Inr (True, g\<lparr>snake := butlast (pos_add head (direction g) # snake g),
                         moves_made := moves_made g + 1\<rparr>, r))"
  by (simp add: move_snake_def Let_def)

lemma move_snake_eat:
  "snake g = head # rest \<Longrightarrow>
   is_valid_position (config g) (pos_add head (direction g)) \<Longrightarrow>
   pos_add head (direction g) \<notin> set (snake g) \<Longrightarrow>
   pos_add head (direction g) = food g \<Longrightarrow>
   move_snake g r =
     (case generate_food (config g) (food g # snake g) r of
        None \<Rightarrow> None
      | Some (Inl e) \<Rightarrow> Some (Inl e)
      | Some (Inr (f, r')) \<Rightarrow>
          Some (Inr (True, g\<lparr>snake := food g # snake g,
                              moves_made := moves_made g + 1, score := score g + 10,
                              food_eaten := food_eaten g + 1, food := f\<rparr>, r')))"
  by (simp add: move_snake_def Let_def split: option.splits sum.splits prod.splits)

lemma move_snake_cases:
  assumes "move_snake g r = Some (Inr (ok, g', r'))"
  obtains (collision) "\<not> ok" "g' = g" "r' = r"
  | (plain) "ok" "pos_add (hd (snake g)) (direction g) \<notin> set (snake g)"
      "pos_add (hd (snake g)) (direction g) \<noteq> food g" "snake g \<noteq> []"
      "g' = g\<lparr>snake := butlast (pos_add (hd (snake g)) (direction g) # snake g),
               moves_made := moves_made g + 1\<rparr>" "r' = r"
  | (eaten) f where "ok" "food g \<notin> set (snake g)" "snake g \<noteq> []"
      "generate_food (config g) (food g # snake g) r = Some (Inr (f, r'))"
      "g' = g\<lparr>snake := food g # snake g,
               moves_made := moves_made g + 1, score := score g + 10,
               food_eaten := food_eaten g + 1, food := f\<rparr>"
proof (cases "snake g")
  case Nil
  with assms show ?thesis by (simp add: move_snake_empty)
next
  case (Cons head rest)
  show ?thesis
  proof (cases "\<not> is_valid_position (config g) (pos_add head (direction g))
     \<or> pos_add head (direction g) \<in> set (snake g)")
    case True
    from move_snake_collision [OF Cons True, of r] assms show ?thesis
      by (intro collision) simp_all
  next
    case False
    then have v: "is_valid_position (config g) (pos_add head (direction g))"
      and n: "pos_add head (direction g) \<notin> set (snake g)" by simp_all
    show ?thesis
    proof (cases "pos_add head (direction g) = food g")
      case False
      from move_snake_plain [OF Cons v n False, of r] assms n False Cons show ?thesis
        by (intro plain) simp_all
    next
      case True
      note eq = move_snake_eat [OF Cons v n True, of r]
      show ?thesis
      proof (cases "generate_food (config g) (food g # snake g) r")
        case None
        with eq assms show ?thesis by simp
      next
        case (Some y)
        show ?thesis
        proof (cases y)
          case (Inl e)
          with Some eq assms show ?thesis by simp
        next
          case (Inr fr)
          obtain f r2 where fr: "fr = (f, r2)" by (cases fr)
          from Inr Some eq assms fr n True Cons show ?thesis
            by (intro eaten [of f]) simp_all
        qed
      qed
    qed
  qed
qed

subsection \<open>Reachable states\<close>

lemma reachable_invariant:
  "reachable g \<Longrightarrow> distinct (snake g) \<and> food g \<notin> set (snake g) \<and> 3 \<le> length (snake g)"
proof (induction rule: reachable.induct)
  case (fresh cfg now r g r')
  from reset_game_result [OF this] obtain f where
    gf: "generate_food cfg
            [Position (board_width cfg div 2) (board_height cfg div 2),
             Position (board_width cfg div 2 - 1) (board_height cfg div 2),
             Position (board_width cfg div 2 - 2) (board_height cfg div 2)] r = Some (Inr (f, r'))"
    and g: "g = \<lparr>config = cfg,
                snake = [Position (board_width cfg div 2) (board_height cfg div 2),
                         Position (board_width cfg div 2 - 1) (board_height cfg div 2),
                         Position (board_width cfg div 2 - 2) (board_height cfg div 2)],
                direction = RIGHT, food = f, score = 0, food_eaten = 0, start_time = now,
                moves_made = 0, game_state = PLAYING\<rparr>"
    by blast
  from generate_food_sound [OF gf] show ?case by (simp add: g)
next
  case (turned g d)
  then show ?case by (simp add: change_direction_def)
next
  case (moved g r ok g' r')
  from moved.hyps(2) show ?case
  proof (cases rule: move_snake_cases)
    case collision
    with moved.IH show ?thesis by simp
  next
    case plain
    have "distinct (butlast (pos_add (hd (snake g)) (direction g) # snake g))"
      using plain(2) moved.IH by (intro distinct_butlast) simp
    moreover have "food g \<notin> set (butlast (pos_add (hd (snake g)) (direction g) # snake g))"
      using plain(3) moved.IH by (auto dest: in_set_butlastD)
    moreover have "3 \<le> length (butlast (pos_add (hd (snake g)) (direction g) # snake g))"
      using moved.IH plain(4) by simp
    ultimately show ?thesis by (simp add: plain(5))
  next
    case (eaten f)
    from generate_food_sound [OF eaten(4)] eaten moved.IH show ?thesis by simp
  qed
next
  case (state_set g st)
  then show ?case by simp
qed

lemma reachable_move_n:
  "reachable g \<Longrightarrow> move_n n g r = Some (Inr (g', r')) \<Longrightarrow> reachable g'"
proof (induction n arbitrary: g r)
  case 0
  then show ?case by simp
next
  case (Suc n)
  from Suc.prems(2) obtain ok g1 r1 where m: "move_snake g r = Some (Inr (ok, g1, r1))"
    by (auto split: option.splits sum.splits)
  with Suc.prems(1) have r1: "reachable g1" by (rule reachable.moved)
  show ?case
  proof (cases ok)
    case True
    with m Suc.prems(2) have "move_n n g1 r1 = Some (Inr (g', r'))" by simp
    with r1 show ?thesis by (rule Suc.IH)
  next
    case False
    with m Suc.prems(2) r1 show ?thesis by simp
  qed
qed

text \<open>The handlers of \<open>main\<close> keep the game object among the reachable states.\<close>

lemma reachable_buttons:
  assumes "reachable (game s)"
  shows "reachable (game (pause_button s))"
    and "reachable (game (resume_button now s))"
    and "reachable (game (direction_button d s))"
  using assms
  by (auto simp: pause_button_def resume_button_def direction_button_def
      intro: reachable.state_set reachable.turned)

lemma reachable_auto_move:
  assumes "reachable (game s)"
    and "auto_move current_time stats_time difficulty s r = Some (Inr (s', r'))"
  shows "reachable (game s')"
proof (cases "game_state (game s) = PLAYING
    \<and> (current_time - last_move_time s) * 1000 \<ge> real_of_int (speeds difficulty) * 0.8")
  case False
  have "speeds difficulty \<noteq> 0" by (cases difficulty) simp_all
  with False assms show ?thesis
    by (auto simp: auto_move_def Let_def split: if_splits)
next
  case True
  have sp: "speeds difficulty \<noteq> 0" by (cases difficulty) simp_all
  from True sp assms(2) obtain ok g1 where m: "move_snake (game s) r = Some (Inr (ok, g1, r'))"
    by (auto simp: auto_move_def Let_def split: option.splits sum.splits)
  with assms(1) have g1: "reachable g1" by (rule reachable.moved)
  then have "reachable (g1\<lparr>game_state := GAME_OVER\<rparr>)" by (rule reachable.state_set)
  with True sp assms(2) m g1 show ?thesis
    by (auto simp: auto_move_def Let_def split: if_splits)
qed

subsection \<open>Eating\<close>



subsection \<open>The example states\<close>

lemma default_dims: "0 < board_width default_config" "0 < board_height default_config"
  by (simp_all add: default_config_def)

lemma reset_scenario: "reset_game default_config 0 scenario_rng = Some (Inr (scenario_game, sconst 7))"
proof -
  have "food_candidate default_config scenario_rng = Position 15 7"
    by (simp add: food_candidate_def scenario_rng_def default_config_def)
  moreover have "next_draws scenario_rng = sconst 7"
    by (simp add: next_draws_def scenario_rng_def)
  ultimately have "generate_food default_config [Position 10 7, Position 9 7, Position 8 7] scenario_rng
      = Some (Inr (Position 15 7, sconst 7))"
    by (subst generate_food_unfold [OF default_dims]) simp
  moreover have "board_width default_config div 2 = 10" "board_height default_config div 2 = 7"
    by (simp_all add: default_config_def)
  ultimately show ?thesis
    by (simp add: reset_game_def scenario_game_def)
qed

lemma reachable_scenario: "reachable scenario_game"
  using reset_scenario by (rule reachable.fresh)

lemma scenario_four_moves: "move_n 4 scenario_game r = Some (Inr (pre_eat_game, r))"
  by (simp add: eval_nat_numeral move_snake_def Let_def scenario_game_def pre_eat_game_def
      default_config_def is_valid_position_def pos_add_def)

lemma scenario_fifth_move:
  "move_snake pre_eat_game (sconst 7)
     = Some (Inr (True, pre_eat_game\<lparr>snake := Position 15 7 # snake pre_eat_game,
                      moves_made := 5, score := 10, food_eaten := 1, food := Position 7 7\<rparr>,
                  sconst 7))"
proof -
  have c: "config pre_eat_game = default_config"
    and f: "food pre_eat_game = Position 15 7"
    and sn: "snake pre_eat_game = Position 14 7 # [Position 13 7, Position 12 7]"
    and d: "pos_add (Position 14 7) (direction pre_eat_game) = Position 15 7"
    and m: "moves_made pre_eat_game = 4" "score pre_eat_game = 0" "food_eaten pre_eat_game = 0"
    by (simp_all add: pre_eat_game_def scenario_game_def pos_add_def)
  have "food_candidate default_config (sconst 7) = Position 7 7"
    by (simp add: food_candidate_def default_config_def)
  moreover have "next_draws (sconst 7) = sconst 7"
    by (simp add: next_draws_def)
  ultimately have gf: "generate_food default_config (Position 15 7 # snake pre_eat_game) (sconst 7)
      = Some (Inr (Position 7 7, sconst 7))"
    by (subst generate_food_unfold [OF default_dims]) (simp add: sn)
  have v: "is_valid_position (config pre_eat_game) (pos_add (Position 14 7) (direction pre_eat_game))"
    by (simp add: d c is_valid_position_def default_config_def)
  have n: "pos_add (Position 14 7) (direction pre_eat_game) \<notin> set (snake pre_eat_game)"
    by (simp add: d sn)
  have e: "pos_add (Position 14 7) (direction pre_eat_game) = food pre_eat_game"
    by (simp add: d f)
  show ?thesis
    by (simp add: move_snake_eat [OF sn v n e] c f gf m)
qed


lemma set_board_row: "set (board_row y) = (\<lambda>x. Position x y) ` {0..19}"
  by (simp add: board_row_def del: upto_rec_numeral)

lemma length_board_row: "length (board_row y) = 20"
  by (simp add: board_row_def del: upto_rec_numeral)

lemma full_board_unfold:
  "full_board_snake = Position 0 0 # Position 1 0 #
     (map (\<lambda>x. Position x 0) [2..19] @ concat (map board_row [1..14]))"
proof -
  have a: "[0..14::int] = 0 # [1..14]" by (subst upto_rec1) simp_all
  have b: "[0..19::int] = 0 # 1 # [2..19]" by (subst upto_rec1, simp, subst upto_rec1) simp_all
  have c: "board_row 0 = Position 0 0 # Position 1 0 # map (\<lambda>x. Position x 0) [2..19]"
    unfolding board_row_def by (simp add: b del: upto_rec_numeral)
  show ?thesis
    unfolding full_board_snake_def a by (simp add: c del: upto_rec_numeral)
qed

lemma almost_full_fresh: "Position 0 0 \<notin> set (tl full_board_snake)"
  unfolding full_board_unfold by (auto simp: set_board_row simp del: upto_rec_numeral)

lemma full_board_set: "set full_board_snake = {p. 0 \<le> pos_x p \<and> pos_x p < 20 \<and> 0 \<le> pos_y p \<and> pos_y p < 15}"
proof -
  have "p \<in> set full_board_snake \<longleftrightarrow> 0 \<le> pos_x p \<and> pos_x p < 20 \<and> 0 \<le> pos_y p \<and> pos_y p < 15" for p
  proof
    assume "p \<in> set full_board_snake"
    then show "0 \<le> pos_x p \<and> pos_x p < 20 \<and> 0 \<le> pos_y p \<and> pos_y p < 15"
      by (auto simp: full_board_snake_def set_board_row simp del: upto_rec_numeral)
  next
    assume v: "0 \<le> pos_x p \<and> pos_x p < 20 \<and> 0 \<le> pos_y p \<and> pos_y p < 15"
    then have "p \<in> set (board_row (pos_y p))"
      by (cases p) (simp add: set_board_row)
    moreover from v have "pos_y p \<in> set [0..14]" by (simp del: upto_rec_numeral)
    ultimately show "p \<in> set full_board_snake"
      unfolding full_board_snake_def set_concat set_map by blast
  qed
  then show ?thesis by blast
qed

lemma full_board_length: "length full_board_snake = 300"
proof -
  have "(length \<circ> board_row) = (\<lambda>y. 20)"
    by (simp add: fun_eq_iff length_board_row)
  then show ?thesis
    by (simp add: full_board_snake_def length_concat sum_list_triv del: upto_rec_numeral)
qed

lemma full_board_covered: "is_valid_position default_config p \<Longrightarrow> p \<in> set full_board_snake"
  by (simp add: full_board_set is_valid_position_def default_config_def)

subsection \<open>The claims\<close>

text \<open>
  C2 (snake well-formedness). In every state reachable from a fresh game by any sequence
  of \<open>change_direction\<close> and \<open>move_snake\<close> calls, the snake's segment list has no
  duplicate position and the food position is not on the snake.
\<close>

theorem snake_well_formed:
  "reachable g \<Longrightarrow> distinct (snake g) \<and> food g \<notin> set (snake g)"
  using reachable_invariant [of g] by simp

theorem snake_well_formed_witness:
  "reachable (pre_eat_game\<lparr>snake := Position 15 7 # snake pre_eat_game,
                      moves_made := 5, score := 10, food_eaten := 1, food := Position 7 7\<rparr>)
   \<and> distinct [Position 15 7, Position 14 7, Position 13 7, Position 12 7]
   \<and> Position 7 7 \<notin> set [Position 15 7, Position 14 7, Position 13 7, Position 12 7]"
proof -
  have "reachable pre_eat_game"
    using reachable_scenario scenario_four_moves by (rule reachable_move_n)
  then have r: "reachable (pre_eat_game\<lparr>snake := Position 15 7 # snake pre_eat_game,
                      moves_made := 5, score := 10, food_eaten := 1, food := Position 7 7\<rparr>)"
    using scenario_fifth_move by (rule reachable.moved)
  from snake_well_formed [OF r] r show ?thesis
    by (simp add: pre_eat_game_def)
qed

text \<open>
  C3 (collision atomicity). In every playing state with a non-empty snake (every
  reachable state has one), when the automatic move is due and the new head
  \<open>head + direction\<close> lies outside the board or on a segment of the snake, \<open>move_snake\<close>
  returns False without touching the game, and \<open>main\<close> sets the state to GAME_OVER:
  the snake's segments and the score are those before the move, whatever the clock
  reads when the statistics are updated.
\<close>

theorem collision_atomicity:
  assumes "game_state (game s) = PLAYING"
    and "(current_time - last_move_time s) * 1000 \<ge> real_of_int (speeds difficulty) * 0.8"
    and "snake (game s) = head # rest"
    and "\<not> is_valid_position (config (game s)) (pos_add head (direction (game s)))
         \<or> pos_add head (direction (game s)) \<in> set (snake (game s))"
  shows "move_snake (game s) r = Some (Inr (False, game s, r))
    \<and> (\<exists>s'. auto_move current_time stats_time difficulty s r = Some (Inr (s', r))
          \<and> game_state (game s') = GAME_OVER
          \<and> snake (game s') = snake (game s)
          \<and> score (game s') = score (game s))"
proof -
  have mv: "move_snake (game s) r = Some (Inr (False, game s, r))"
    using assms(3,4) by (auto simp: move_snake_def Let_def)
  have sp: "speeds difficulty \<noteq> 0"
    by (cases difficulty) simp_all
  show ?thesis
    using assms(1,2) mv sp by (simp add: auto_move_def Let_def)
qed

theorem collision_atomicity_witness:
  "game_state (game (session_of wall_game)) = PLAYING
   \<and> (1 - last_move_time (session_of wall_game)) * 1000 \<ge> real_of_int (speeds Medium) * 0.8
   \<and> snake (game (session_of wall_game)) = Position 19 7 # [Position 18 7, Position 17 7]
   \<and> \<not> is_valid_position (config (game (session_of wall_game)))
         (pos_add (Position 19 7) (direction (game (session_of wall_game))))
   \<and> move_snake (game (session_of wall_game)) (sconst 0)
       = Some (Inr (False, game (session_of wall_game), sconst 0))
   \<and> (\<exists>s'. auto_move 1 2 Medium (session_of wall_game) (sconst 0) = Some (Inr (s', sconst 0))
          \<and> game_state (game s') = GAME_OVER
          \<and> snake (game s') = [Position 19 7, Position 18 7, Position 17 7]
          \<and> score (game s') = 0)"
proof -
  have a1: "game_state (game (session_of wall_game)) = PLAYING"
    by (simp add: session_of_def wall_game_def scenario_game_def)
  have a2: "(1 - last_move_time (session_of wall_game)) * 1000 \<ge> real_of_int (speeds Medium) * 0.8"
    by (simp add: session_of_def)
  have a3: "snake (game (session_of wall_game)) = Position 19 7 # [Position 18 7, Position 17 7]"
    by (simp add: session_of_def wall_game_def)
  have a4: "\<not> is_valid_position (config (game (session_of wall_game)))
         (pos_add (Position 19 7) (direction (game (session_of wall_game))))"
    by (simp add: session_of_def wall_game_def scenario_game_def default_config_def
        is_valid_position_def pos_add_def)
  have a5: "score (game (session_of wall_game)) = 0"
    by (simp add: session_of_def wall_game_def scenario_game_def)
  from a4 have a4': "\<not> is_valid_position (config (game (session_of wall_game)))
         (pos_add (Position 19 7) (direction (game (session_of wall_game))))
       \<or> pos_add (Position 19 7) (direction (game (session_of wall_game)))
           \<in> set (snake (game (session_of wall_game)))"
    by (rule disjI1)
  show ?thesis
    using collision_atomicity [OF a1 a2 a3 a4', where r = "sconst 0" and stats_time = 2]
      a1 a2 a3 a4 a5 by simp
qed




text \<open>
  C7 (food placement), as the code has it. On a board of positive width and height, food
  generation terminates whenever the random source draws, at some attempt \<open>k\<close>, a cell
  that is not on the snake: it returns the first such cell drawn, which is on the board
  and off the snake, after at most \<open>k + 1\<close> attempts.
\<close>

theorem generate_food_terminates:
  assumes "0 < board_width cfg" and "0 < board_height cfg"
    and "food_candidate cfg ((next_draws ^^ k) r) \<notin> set sn"
  shows "\<exists>j\<le>k. generate_food cfg sn r
        = Some (Inr (food_candidate cfg ((next_draws ^^ j) r), (next_draws ^^ Suc j) r))
      \<and> food_candidate cfg ((next_draws ^^ j) r) \<notin> set sn
      \<and> is_valid_position cfg (food_candidate cfg ((next_draws ^^ j) r))"
proof -
  from generate_food_returns [OF assms] obtain j where "j \<le> k"
    "generate_food cfg sn r
        = Some (Inr (food_candidate cfg ((next_draws ^^ j) r), (next_draws ^^ Suc j) r))"
    "food_candidate cfg ((next_draws ^^ j) r) \<notin> set sn"
    by blast
  with candidate_valid [OF assms(1,2)] show ?thesis by blast
qed

theorem generate_food_terminates_witness:
  "0 < board_width default_config \<and> 0 < board_height default_config
   \<and> food_candidate default_config ((next_draws ^^ 0) scenario_rng) \<notin> set (snake scenario_game)
   \<and> generate_food default_config (snake scenario_game) scenario_rng
       = Some (Inr (Position 15 7, sconst 7))
   \<and> is_valid_position default_config (Position 15 7)"
proof -
  have c: "food_candidate default_config scenario_rng = Position 15 7"
    by (simp add: food_candidate_def scenario_rng_def default_config_def)
  have n: "next_draws scenario_rng = sconst 7"
    by (simp add: next_draws_def scenario_rng_def)
  have h: "food_candidate default_config ((next_draws ^^ 0) scenario_rng) \<notin> set (snake scenario_game)"
    by (simp add: c scenario_game_def)
  from generate_food_terminates [OF default_dims h] c n h default_dims show ?thesis
    by simp
qed

text \<open>
  The claim as stated fails: on a snake that covers the whole default board
  \<open>generate_food\<close> never returns, whatever the random source (lemma
  \<open>generate_food_diverges\<close>), and the move that eats the food on the last free cell
  never returns either. No state of the game stands for a win.
\<close>

theorem full_board_counterexample:
  "generate_food default_config full_board_snake nats = None
   \<and> length full_board_snake = 300
   \<and> move_snake almost_full_game nats = None"
proof -
  have cover: "\<forall>p. is_valid_position default_config p \<longrightarrow> p \<in> set full_board_snake"
    using full_board_covered by blast
  have gf: "generate_food default_config full_board_snake r = None" for r
    using default_dims cover by (rule generate_food_diverges)
  have c: "config almost_full_game = default_config"
    and f: "food almost_full_game = Position 0 0"
    and sn: "snake almost_full_game = Position 1 0 #
        (map (\<lambda>x. Position x 0) [2..19] @ concat (map board_row [1..14]))"
    and d: "pos_add (Position 1 0) (direction almost_full_game) = Position 0 0"
    by (simp_all add: almost_full_game_def pos_add_def full_board_unfold del: upto_rec_numeral)
  have v: "is_valid_position (config almost_full_game)
      (pos_add (Position 1 0) (direction almost_full_game))"
    unfolding d c by (simp add: is_valid_position_def default_config_def)
  have n: "pos_add (Position 1 0) (direction almost_full_game) \<notin> set (snake almost_full_game)"
    unfolding d using almost_full_fresh by (simp add: almost_full_game_def)
  have e: "pos_add (Position 1 0) (direction almost_full_game) = food almost_full_game"
    unfolding d f ..
  have grown: "food almost_full_game # snake almost_full_game = full_board_snake"
    unfolding f sn full_board_unfold ..
  have "move_snake almost_full_game nats = None"
    unfolding move_snake_eat [OF sn v n e] grown c by (simp add: gf)
  with gf full_board_length show ?thesis by simp
qed

text \<open>
  Within one script run the button does what its code says: it stores \<open>d\<close> as the
  direction exactly when the game is playing and \<open>d\<close> is not the opposite of the current
  direction, the direction whose unit vector is the negated one; otherwise the session
  is unchanged.
\<close>

lemma opposite_vector:
  "opposite d = d' \<longleftrightarrow>
     direction_value d' = (- fst (direction_value d), - snd (direction_value d))"
  by (cases d; cases d') simp_all

lemma change_direction_cases:
  "change_direction UP g = (if direction g = DOWN then g else g\<lparr>direction := UP\<rparr>)"
  "change_direction DOWN g = (if direction g = UP then g else g\<lparr>direction := DOWN\<rparr>)"
  "change_direction LEFT g = (if direction g = RIGHT then g else g\<lparr>direction := LEFT\<rparr>)"
  "change_direction RIGHT g = (if direction g = LEFT then g else g\<lparr>direction := RIGHT\<rparr>)"
  by (cases "direction g"; simp add: change_direction_def)+

lemma direction_button_one_run:
  "direction_button d s =
     (if game_state (game s) = PLAYING \<and> d \<noteq> opposite (direction (game s))
      then s\<lparr>game := (game s)\<lparr>direction := d\<rparr>\<rparr> else s)"
  by (simp add: direction_button_def change_direction_def)

lemma direction_button_examples:
  "direction (game (direction_button UP (session_of scenario_game))) = UP"
  "direction (game (direction_button LEFT (session_of scenario_game))) = RIGHT"
  "direction (game (direction_button UP (session_of (scenario_game\<lparr>game_state := PAUSED\<rparr>))))
     = RIGHT"
  by (simp_all add: direction_button_def change_direction_def session_of_def scenario_game_def)

lemma direction_button_rerun_same:
  "direction_button_rerun run run d s = direction_button d s"
  by (simp add: direction_button_rerun_def direction_button_def)

lemma direction_button_rerun_later:
  "assigned \<noteq> run \<Longrightarrow> direction_button_rerun assigned run d s = s"
  by (simp add: direction_button_rerun_def)

text \<open>
  C8 (direction-change guard) fails on the code. The claim asks that a request for a
  direction \<open>d\<close> stores \<open>d\<close> whenever the game is playing and \<open>d\<close> is not the opposite of
  the current direction. Take the scenario game, constructed and set to \<open>PLAYING\<close> by the
  first script run (run 0) and heading right, and press the button Up, which starts the
  next run (run 1). Up is not the opposite of right, and the game is playing; but the test
  of the button compares the stored member \<open>PLAYING\<close> of run 0 with the member \<open>PLAYING\<close>
  of run 1 and fails, \<open>change_direction\<close> is not called, and the direction stays right.
\<close>

theorem direction_button_rerun_divergence:
  "game_state (game (session_of scenario_game)) = PLAYING
   \<and> direction (game (session_of scenario_game)) = RIGHT
   \<and> opposite RIGHT = LEFT
   \<and> direction (game (direction_button_rerun 0 1 UP (session_of scenario_game))) = RIGHT
   \<and> direction_button_rerun 0 1 UP (session_of scenario_game) = session_of scenario_game
   \<and> direction (change_direction UP (game (session_of scenario_game))) = UP"
  by (simp add: direction_button_rerun_def change_direction_def session_of_def scenario_game_def)

text \<open>
  C9 (elapsed time and pauses), as the code has it. The reported time is the wall-clock
  time since the game started: neither Pause nor Resume writes \<open>start_time\<close>, so a game
  paused at \<open>t0\<close> for a duration \<open>t\<close> and read \<open>d\<close> seconds after it resumed reports
  \<open>t\<close> more than the same game read \<open>d\<close> seconds after \<open>t0\<close> without the pause.
\<close>

theorem elapsed_time_includes_pause:
  "get_game_time (game (resume_button t_resume (pause_button s))) now = now - start_time (game s)
   \<and> get_game_time (game (resume_button (t0 + t) (pause_button s))) (t0 + t + d)
       = get_game_time (game s) (t0 + d) + t"
  by (simp add: get_game_time_def resume_button_def pause_button_def)

text \<open>
  The claim as stated fails: the scenario game, started at time 0 and paused at time 10,
  reports 30 seconds when it was resumed at 25 and read at 30, and 15 seconds when it
  was resumed at once and read at 15. Both runs played for 15 seconds; the reports
  differ by the 15 seconds of the pause.
\<close>

theorem elapsed_time_counterexample:
  "get_game_time (game (resume_button 25 (pause_button (session_of scenario_game)))) 30 = 30
   \<and> get_game_time (game (resume_button 10 (pause_button (session_of scenario_game)))) 15 = 15
   \<and> game_state (game (pause_button (session_of scenario_game))) = PAUSED
   \<and> game_state (game (resume_button 25 (pause_button (session_of scenario_game)))) = PLAYING"
  by (simp add: get_game_time_def resume_button_def pause_button_def session_of_def
      scenario_game_def)

section \<open>Properties of the debt settlement optimizer\<close>

subsection \<open>Rounding\<close>

lemma round_half_even_int [simp]: "round_half_even (of_int n) = n"
  by (simp add: round_half_even_def)

lemma two_powr_nonneg_int: "0 \<le> j \<Longrightarrow> (2::real) powr (of_int j) = of_int (2 ^ nat j)"
proof -
  assume "0 \<le> j"
  then have "(2::real) powr (of_int j) = 2 powr (real (nat j))" by simp
  also have "\<dots> = 2 ^ nat j" by (simp add: powr_realpow)
  finally show ?thesis by simp
qed

lemma on_grid_iff:
  "on_grid k x \<longleftrightarrow> (\<exists>m::int. \<bar>m\<bar> \<le> 2 ^ 53 \<and> x = of_int m * 2 powr (of_int k))"
proof
  assume g: "on_grid k x"
  define m where "m = \<lfloor>x / 2 powr (of_int k)\<rfloor>"
  from g have q: "x / 2 powr (of_int k) = of_int m" and b: "\<bar>x / 2 powr (of_int k)\<bar> \<le> 2 ^ 53"
    by (simp_all add: on_grid_def m_def)
  from q have "x = of_int m * 2 powr (of_int k)"
    by (simp add: field_simps)
  moreover from b q have "\<bar>of_int m :: real\<bar> \<le> of_int (2 ^ 53)" by simp
  then have "\<bar>m\<bar> \<le> 2 ^ 53" by (simp only: of_int_abs [symmetric] of_int_le_iff)
  ultimately show "\<exists>m::int. \<bar>m\<bar> \<le> 2 ^ 53 \<and> x = of_int m * 2 powr (of_int k)" by blast
next
  assume "\<exists>m::int. \<bar>m\<bar> \<le> 2 ^ 53 \<and> x = of_int m * 2 powr (of_int k)"
  then obtain m :: int where m: "\<bar>m\<bar> \<le> 2 ^ 53" and x: "x = of_int m * 2 powr (of_int k)"
    by blast
  have q: "x / 2 powr (of_int k) = of_int m" by (simp add: x)
  from m have "(of_int \<bar>m\<bar> :: real) \<le> of_int (2 ^ 53)" by (rule of_int_le_iff [THEN iffD2])
  then have "\<bar>of_int m :: real\<bar> \<le> 2 ^ 53" by simp
  with q show "on_grid k x" by (simp add: on_grid_def)
qed

lemma round53_unit:
  assumes x: "x \<noteq> 0" and e: "e = \<lfloor>log 2 \<bar>x\<bar>\<rfloor>"
    and q: "x / 2 powr (of_int e - 52) = of_int n"
  shows "round53 x = x"
proof -
  have "round53 x = of_int (round_half_even (x / 2 powr (of_int e - 52))) * 2 powr (of_int e - 52)"
    using x e by (simp add: round53_def Let_def)
  also have "\<dots> = x / 2 powr (of_int e - 52) * 2 powr (of_int e - 52)"
    by (simp add: q)
  also have "\<dots> = x" by simp
  finally show ?thesis .
qed

lemma round53_grid:
  assumes "on_grid k x"
  shows "round53 x = x"
proof (cases "x = 0")
  case True
  then show ?thesis by (simp add: round53_def)
next
  case False
  from assms obtain m :: int where m: "\<bar>m\<bar> \<le> 2 ^ 53" and x: "x = of_int m * 2 powr (of_int k)"
    unfolding on_grid_iff by blast
  from False x have m0: "m \<noteq> 0" by auto
  define e where "e = \<lfloor>log 2 \<bar>x\<bar>\<rfloor>"
  have xpos: "0 < \<bar>x\<bar>" using False by simp
  have lo: "2 powr (of_int e) \<le> \<bar>x\<bar>" and hi: "\<bar>x\<bar> < 2 powr (of_int e + 1)"
    using floor_log_eq_powr_iff [of "\<bar>x\<bar>" 2 e] xpos e_def by simp_all
  have ax: "\<bar>x\<bar> = of_int \<bar>m\<bar> * 2 powr (of_int k)"
    by (simp add: x abs_mult)
  have "\<bar>x\<bar> \<le> 2 ^ 53 * 2 powr (of_int k)"
  proof -
    have "(of_int \<bar>m\<bar> :: real) \<le> of_int (2 ^ 53)" using m by (rule of_int_le_iff [THEN iffD2])
    then show ?thesis unfolding ax by (simp add: mult_right_mono)
  qed
  also have "\<dots> = 2 powr (53 + of_int k)"
    by (simp add: powr_add)
  finally have "2 powr (of_int e) \<le> (2::real) powr (53 + of_int k)"
    using lo by linarith
  then have e_le: "e \<le> 53 + k" by simp
  define j where "j = 52 - e + k"
  have jge: "- 1 \<le> j" using e_le by (simp add: j_def)
  have quot: "x / 2 powr (of_int e - 52) = of_int m * 2 powr (of_int j)"
  proof -
    have "(2::real) powr (of_int k) = 2 powr (of_int j) * 2 powr (of_int e - 52)"
      by (simp add: j_def powr_add [symmetric])
    then show ?thesis by (simp add: x)
  qed
  show ?thesis
  proof (cases "0 \<le> j")
    case True
    have "x / 2 powr (of_int e - 52) = of_int (m * 2 ^ nat j)"
      by (simp add: quot two_powr_nonneg_int [OF True])
    with False e_def show ?thesis by (rule round53_unit)
  next
    case neg: False
    with jge have j: "j = - 1" by simp
    then have ek: "e = 53 + k" by (simp add: j_def)
    from lo have "(2::real) powr (53 + of_int k) \<le> of_int \<bar>m\<bar> * 2 powr (of_int k)"
      by (simp add: ek ax add.commute)
    then have "(2::real) ^ 53 * 2 powr (of_int k) \<le> of_int \<bar>m\<bar> * 2 powr (of_int k)"
      by (simp add: powr_add)
    then have "(2::real) ^ 53 \<le> of_int \<bar>m\<bar>" by simp
    then have "(of_int (2 ^ 53) :: real) \<le> of_int \<bar>m\<bar>" by simp
    then have "2 ^ 53 \<le> \<bar>m\<bar>" by (simp only: of_int_le_iff)
    with m have am: "\<bar>m\<bar> = 2 ^ 53" by simp
    then have "m = 2 ^ 53 \<or> m = - (2 ^ 53)" by linarith
    then have "\<exists>n. m = 2 * n" by auto
    then obtain n where n: "m = 2 * n" by blast
    have "x / 2 powr (of_int e - 52) = of_int n"
      by (simp add: quot j n powr_minus)
    with False e_def show ?thesis by (rule round53_unit)
  qed
qed

subsection \<open>The loop\<close>

lemma drop_update_same: "j < length cs \<Longrightarrow> drop j (cs[j := x]) = x # drop (Suc j) cs"
  by (simp add: upd_conv_take_nth_drop)

lemma while_loop_settle:
  "i \<le> length ds \<Longrightarrow> j \<le> length cs \<Longrightarrow>
   while_loop ds cs i j acc = acc @ settle fsub (drop i ds) (drop j cs)"
proof (induction ds cs i j acc rule: while_loop.induct)
  case (1 ds cs i j acc)
  note unfold = while_loop.simps [of ds cs i j acc]
  show ?case
  proof (cases "i < length ds \<and> j < length cs")
    case False
    then have "drop i ds = [] \<or> drop j cs = []" by auto
    then have "settle fsub (drop i ds) (drop j cs) = []"
      by (cases "drop i ds") auto
    with False show ?thesis by (auto simp: unfold)
  next
    case True
    then have di: "drop i ds = ds ! i # drop (Suc i) ds" and dj: "drop j cs = cs ! j # drop (Suc j) cs"
      by (simp_all add: Cons_nth_drop_Suc)
    consider (lt) "amount (ds ! i) < amount (cs ! j)"
      | (gt) "\<not> amount (ds ! i) < amount (cs ! j)" "amount (ds ! i) > amount (cs ! j)"
      | (eq) "\<not> amount (ds ! i) < amount (cs ! j)" "\<not> amount (ds ! i) > amount (cs ! j)"
      by blast
    then show ?thesis
    proof cases
      case lt
      have "while_loop ds (cs[j := (cs ! j)\<lparr>amount := fsub (amount (cs ! j)) (amount (ds ! i))\<rparr>]) (i + 1) j
             (acc @ [\<lparr>txn_from = name (ds ! i), txn_to = name (cs ! j), txn_amount = amount (ds ! i)\<rparr>])
          = (acc @ [\<lparr>txn_from = name (ds ! i), txn_to = name (cs ! j), txn_amount = amount (ds ! i)\<rparr>])
             @ settle fsub (drop (i + 1) ds)
                 (drop j (cs[j := (cs ! j)\<lparr>amount := fsub (amount (cs ! j)) (amount (ds ! i))\<rparr>]))"
        using True lt by (intro "1.IH"(1) [OF True refl refl]) simp_all
      with True lt show ?thesis
        by (simp add: unfold di dj drop_update_same Let_def)
    next
      case gt
      have "while_loop (ds[i := (ds ! i)\<lparr>amount := fsub (amount (ds ! i)) (amount (cs ! j))\<rparr>]) cs i (j + 1)
             (acc @ [\<lparr>txn_from = name (ds ! i), txn_to = name (cs ! j), txn_amount = amount (cs ! j)\<rparr>])
          = (acc @ [\<lparr>txn_from = name (ds ! i), txn_to = name (cs ! j), txn_amount = amount (cs ! j)\<rparr>])
             @ settle fsub (drop i (ds[i := (ds ! i)\<lparr>amount := fsub (amount (ds ! i)) (amount (cs ! j))\<rparr>]))
                 (drop (j + 1) cs)"
        using True gt by (intro "1.IH"(2) [OF True refl refl]) simp_all
      with True gt show ?thesis
        by (simp add: unfold di dj drop_update_same Let_def)
    next
      case eq
      have "while_loop ds cs (i + 1) (j + 1)
             (acc @ [\<lparr>txn_from = name (ds ! i), txn_to = name (cs ! j), txn_amount = amount (ds ! i)\<rparr>])
          = (acc @ [\<lparr>txn_from = name (ds ! i), txn_to = name (cs ! j), txn_amount = amount (ds ! i)\<rparr>])
             @ settle fsub (drop (i + 1) ds) (drop (j + 1) cs)"
        using True eq by (intro "1.IH"(3) [OF True refl refl]) simp_all
      with True eq show ?thesis
        by (simp add: unfold di dj Let_def)
    qed
  qed
qed

lemma optimize_payments_settle:
  "optimize_payments rs =
     settle fsub (sort_key (\<lambda>x. - amount x) (fst (classify rs)))
            (sort_key (\<lambda>x. - amount x) (snd (classify rs)))"
  by (simp add: optimize_payments_def while_loop_settle split: prod.splits)

subsection \<open>Sums of amounts\<close>

lemma owed_Nil [simp]: "owed n [] = 0" by (simp add: owed_def)
lemma owed_Cons [simp]: "owed n (e # es) = (if name e = n then amount e else 0) + owed n es"
  by (simp add: owed_def)
lemma total_Nil [simp]: "total_amount [] = 0" by (simp add: total_amount_def)
lemma total_Cons [simp]: "total_amount (e # es) = amount e + total_amount es" by (simp add: total_amount_def)
lemma sent_Nil [simp]: "sent n [] = 0" by (simp add: sent_def)
lemma sent_Cons [simp]: "sent n (t # ts) = (if txn_from t = n then txn_amount t else 0) + sent n ts"
  by (simp add: sent_def)
lemma received_Nil [simp]: "received n [] = 0" by (simp add: received_def)
lemma received_Cons [simp]:
  "received n (t # ts) = (if txn_to t = n then txn_amount t else 0) + received n ts"
  by (simp add: received_def)



lemma total_nonneg: "\<forall>e\<in>set es. 0 < amount e \<Longrightarrow> 0 \<le> total_amount es"
  by (induction es) auto



subsection \<open>Values of the rounding\<close>

lemma round53_eval:
  assumes "0 < x" and "2 powr (of_int e) \<le> x" and "x < 2 powr (of_int e + 1)"
  shows "round53 x = of_int (round_half_even (x / 2 powr (of_int e - 52))) * 2 powr (of_int e - 52)"
proof -
  have "\<lfloor>log 2 \<bar>x\<bar>\<rfloor> = e"
    using floor_log_eq_powr_iff [of "\<bar>x\<bar>" 2 e] assms by simp
  with assms(1) show ?thesis by (simp add: round53_def Let_def)
qed

lemma lit_0_01_value: "lit_0_01 = 5764607523034235 / 576460752303423488"
proof -
  have a: "round53 (1 / 100)
      = of_int (round_half_even ((1 / 100) / 2 powr (of_int (- 7) - 52))) * 2 powr (of_int (- 7) - 52)"
    by (rule round53_eval) (simp_all add: powr_minus_divide)
  have p: "(2::real) powr (of_int (- 7) - 52) = 1 / 576460752303423488"
    by (simp add: powr_minus_divide)
  have r: "round_half_even ((1 / 100) / (1 / 576460752303423488)) = 5764607523034235"
    by (simp add: round_half_even_def Let_def)
  show ?thesis
    unfolding lit_0_01_def a p r by simp
qed

lemma lit_0_01_bounds: "1 / 100 < lit_0_01" "0 < lit_0_01"
  by (simp_all add: lit_0_01_value)

lemma round53_tie: "round53 (9007199254740993 / 2) = 4503599627370496"
proof -
  have a: "round53 (9007199254740993 / 2)
      = of_int (round_half_even ((9007199254740993 / 2) / 2 powr (of_int 52 - 52)))
          * 2 powr (of_int 52 - 52)"
    by (rule round53_eval) simp_all
  have p: "(2::real) powr (of_int 52 - 52) = 1"
    by simp
  have r: "round_half_even ((9007199254740993 / 2) / 1) = 4503599627370496"
    by (simp add: round_half_even_def Let_def)
  show ?thesis
    unfolding a p r by simp
qed

subsection \<open>Exact subtractions\<close>

lemma on_grid_uminus: "on_grid k x \<Longrightarrow> on_grid k (- x)"
proof -
  assume "on_grid k x"
  then obtain m :: int where "\<bar>m\<bar> \<le> 2 ^ 53" "x = of_int m * 2 powr (of_int k)"
    unfolding on_grid_iff by blast
  then have "\<bar>- m\<bar> \<le> 2 ^ 53 \<and> - x = of_int (- m) * 2 powr (of_int k)" by simp
  then show ?thesis unfolding on_grid_iff by blast
qed

lemma on_grid_diff:
  assumes "on_grid k a" and "on_grid k b" and "0 < b" and "b < a"
  shows "on_grid k (a - b)"
proof -
  from assms(1) obtain m :: int where m: "\<bar>m\<bar> \<le> 2 ^ 53" "a = of_int m * 2 powr (of_int k)"
    unfolding on_grid_iff by blast
  from assms(2) obtain l :: int where l: "\<bar>l\<bar> \<le> 2 ^ 53" "b = of_int l * 2 powr (of_int k)"
    unfolding on_grid_iff by blast
  have p: "(0::real) < 2 powr (of_int k)" by simp
  from assms(3) l(2) p have "0 < (of_int l :: real)"
    by (simp add: zero_less_mult_iff)
  then have l0: "0 < l" by simp
  from assms(4) m(2) l(2) p have "(of_int l :: real) < of_int m"
    by simp
  then have lm: "l < m" by simp
  from l0 lm m(1) have "\<bar>m - l\<bar> \<le> 2 ^ 53" by simp
  moreover have "a - b = of_int (m - l) * 2 powr (of_int k)"
    by (simp add: m(2) l(2) left_diff_distrib)
  ultimately show ?thesis unfolding on_grid_iff by blast
qed

lemma fsub_exact:
  "on_grid k a \<Longrightarrow> on_grid k b \<Longrightarrow> 0 < b \<Longrightarrow> b < a \<Longrightarrow> fsub a b = a - b"
  unfolding fsub_def by (rule round53_grid) (rule on_grid_diff)

lemma on_grid_int: "\<bar>n\<bar> \<le> 2 ^ 53 \<Longrightarrow> on_grid 0 (of_int n)"
  unfolding on_grid_iff by (intro exI [of _ n]) simp

subsection \<open>What the loop produces\<close>

lemma length_settle: "length (settle sub ds cs) \<le> length ds + length cs - 1"
  by (induction sub ds cs rule: settle.induct) auto


lemma settle_empty: "settle sub ds cs = [] \<longleftrightarrow> ds = [] \<or> cs = []"
  by (cases ds; cases cs) auto

text \<open>On amounts that are positive whole numbers of one unit the loop never rounds.\<close>

lemma settle_on_grid:
  "\<forall>a b. sub a b = a - b \<Longrightarrow> \<forall>e\<in>set ds. on_grid k (amount e) \<and> 0 < amount e \<Longrightarrow>
     \<forall>e\<in>set cs. on_grid k (amount e) \<and> 0 < amount e \<Longrightarrow>
     settle fsub ds cs = settle sub ds cs"
proof (induction sub ds cs rule: settle.induct)
  case (1 sub d ds c cs)
  note exact = "1.prems"(1)
  from "1.prems"(2,3) have gd: "on_grid k (amount d)" "0 < amount d"
    and gc: "on_grid k (amount c)" "0 < amount c"
    and gds: "\<forall>e\<in>set ds. on_grid k (amount e) \<and> 0 < amount e"
    and gcs: "\<forall>e\<in>set cs. on_grid k (amount e) \<and> 0 < amount e" by simp_all
  show ?case
  proof (cases "amount d < amount c")
    case True
    have sx: "sub (amount c) (amount d) = amount c - amount d" using exact by blast
    have "fsub (amount c) (amount d) = amount c - amount d"
      using gc(1) gd(1) gd(2) True by (rule fsub_exact)
    with sx have fs: "fsub (amount c) (amount d) = sub (amount c) (amount d)" by simp
    have "on_grid k (amount c - amount d)"
      using gc(1) gd(1) gd(2) True by (rule on_grid_diff)
    with True sx gcs
    have g': "\<forall>e\<in>set (c\<lparr>amount := sub (amount c) (amount d)\<rparr> # cs). on_grid k (amount e) \<and> 0 < amount e"
      by simp
    have "settle fsub ds (c\<lparr>amount := sub (amount c) (amount d)\<rparr> # cs)
        = settle sub ds (c\<lparr>amount := sub (amount c) (amount d)\<rparr> # cs)"
      using True exact gds g' by (rule "1.IH"(1))
    with True show ?thesis by (simp add: fs)
  next
    case False
    show ?thesis
    proof (cases "amount d > amount c")
      case True
      have sx: "sub (amount d) (amount c) = amount d - amount c" using exact by blast
      have "fsub (amount d) (amount c) = amount d - amount c"
        using gd(1) gc(1) gc(2) True by (rule fsub_exact)
      with sx have fs: "fsub (amount d) (amount c) = sub (amount d) (amount c)" by simp
      have "on_grid k (amount d - amount c)"
        using gd(1) gc(1) gc(2) True by (rule on_grid_diff)
      with True sx gds
      have g': "\<forall>e\<in>set (d\<lparr>amount := sub (amount d) (amount c)\<rparr> # ds). on_grid k (amount e) \<and> 0 < amount e"
        by simp
      have "settle fsub (d\<lparr>amount := sub (amount d) (amount c)\<rparr> # ds) cs
          = settle sub (d\<lparr>amount := sub (amount d) (amount c)\<rparr> # ds) cs"
        using False True exact g' gcs by (rule "1.IH"(2))
      with True False show ?thesis by (simp add: fs)
    next
      case eq: False
      have "settle fsub ds cs = settle sub ds cs"
        using False eq exact gds gcs by (rule "1.IH"(3))
      with False eq show ?thesis by simp
    qed
  qed
next
  case (2 sub cs)
  then show ?case by simp
next
  case (3 sub d ds)
  then show ?case by simp
qed


lemma settle_total:
  "\<forall>a b. sub a b = a - b \<Longrightarrow> \<forall>e\<in>set ds. 0 < amount e \<Longrightarrow> \<forall>e\<in>set cs. 0 < amount e \<Longrightarrow>
   sum_list (map txn_amount (settle sub ds cs)) = min (total_amount ds) (total_amount cs)"
proof (induction sub ds cs rule: settle.induct)
  case (1 sub d ds c cs)
  then show ?case by (auto simp: min_def)
next
  case (2 sub cs)
  then show ?case using total_nonneg [of cs] by simp
next
  case (3 sub d ds)
  then show ?case using total_nonneg [of "d # ds"] by simp
qed



subsection \<open>Classification and sorting\<close>



lemma total_insort: "total_amount (insort_key f e es) = total_amount (e # es)"
  by (induction es) auto

lemma total_sort: "total_amount (sort_key f es) = total_amount es"
  by (induction es) (simp_all add: total_insort)

lemma classify_debtors:
  "fst (classify rs) =
     map (\<lambda>p. \<lparr>name = fst p, amount = - snd p\<rparr>) (filter (\<lambda>p. snd p < - lit_0_01) rs)"
  by (induction rs) (auto simp: case_prod_beta)

lemma classify_creditors:
  "snd (classify rs) =
     map (\<lambda>p. \<lparr>name = fst p, amount = snd p\<rparr>)
       (filter (\<lambda>p. \<not> snd p < - lit_0_01 \<and> snd p > lit_0_01) rs)"
  by (induction rs) (auto simp: case_prod_beta)

lemma debtors_pos: "\<forall>e\<in>set (fst (classify rs)). 0 < amount e"
  using lit_0_01_bounds(2) by (auto simp: classify_debtors)

lemma creditors_pos: "\<forall>e\<in>set (snd (classify rs)). 0 < amount e"
  using lit_0_01_bounds(2) by (auto simp: classify_creditors)

lemma length_classify: "length (fst (classify rs)) + length (snd (classify rs)) \<le> length rs"
  by (induction rs) (auto simp: case_prod_beta)




lemma balance_of_Nil [simp]: "balance_of [] n = 0"
  by (simp add: balance_of_def)

lemma balance_of_Cons [simp]:
  "balance_of ((m, b) # rs) n = (if n = m then b else balance_of rs n)"
  by (simp add: balance_of_def)



text \<open>
  The two totals differ by the sum of the balances that are above the threshold in
  absolute value: by the sum of all balances when none of them lies in \<open>[-0.01, 0.01]\<close>.
\<close>

lemma totals_difference:
  "credit_total rs - debt_total rs = sum_list (map snd (filter (\<lambda>p. \<bar>snd p\<bar> > lit_0_01) rs))"
  unfolding credit_total_def debt_total_def
  by (induction rs) (auto simp: case_prod_beta)





lemma grid_debtors:
  "\<forall>p\<in>set rs. on_grid k (snd p) \<Longrightarrow>
   \<forall>e\<in>set (fst (classify rs)). on_grid k (amount e) \<and> 0 < amount e"
  using lit_0_01_bounds(2) by (auto simp: classify_debtors on_grid_uminus)

lemma grid_creditors:
  "\<forall>p\<in>set rs. on_grid k (snd p) \<Longrightarrow>
   \<forall>e\<in>set (snd (classify rs)). on_grid k (amount e) \<and> 0 < amount e"
  using lit_0_01_bounds(2) by (auto simp: classify_creditors)

text \<open>
  When all balances are whole numbers of one unit, \<open>optimize_payments\<close> computes the loop
  without rounding.
\<close>

lemma optimize_payments_exact:
  assumes "\<forall>p\<in>set rs. on_grid k (snd p)"
  shows "optimize_payments rs =
     settle (-) (sort_key (\<lambda>x. - amount x) (fst (classify rs)))
                (sort_key (\<lambda>x. - amount x) (snd (classify rs)))"
proof -
  have "settle fsub (sort_key (\<lambda>x. - amount x) (fst (classify rs)))
                    (sort_key (\<lambda>x. - amount x) (snd (classify rs)))
      = settle (-) (sort_key (\<lambda>x. - amount x) (fst (classify rs)))
                   (sort_key (\<lambda>x. - amount x) (snd (classify rs)))"
    using grid_debtors [OF assms] grid_creditors [OF assms]
    by (intro settle_on_grid [where k = k]) simp_all
  then show ?thesis by (simp add: optimize_payments_settle)
qed

subsection \<open>The example inputs\<close>


lemma fsub_30_10: "fsub 30 10 = 20"
  using round53_grid [OF on_grid_int [of 20]] by (simp add: fsub_def)

lemma round53_half: "round53 (1 / 2) = 1 / 2"
proof -
  have "on_grid (- 1) (1 / 2)"
    unfolding on_grid_iff by (intro exI [of _ 1]) (simp add: powr_minus_divide)
  then show ?thesis by (rule round53_grid)
qed




lemma optimize_unbalanced:
  "optimize_payments unbalanced = [\<lparr>txn_from = ''B'', txn_to = ''A'', txn_amount = 10\<rparr>]"
  by (simp add: optimize_payments_settle unbalanced_def lit_0_01_value fsub_30_10)

text \<open>
  On \<open>large_balances\<close> the first subtraction, \<open>2^53 - (2^52 - 1/2)\<close>, has the result
  \<open>2^52 + 1/2\<close>, which is not a double: it is rounded to \<open>2^52\<close>. The loop then takes
  A to be owed \<open>1/2\<close> less than A is, and D pays \<open>1/2\<close> in place of 1.
\<close>

lemma optimize_large:
  "optimize_payments large_balances =
     [\<lparr>txn_from = ''B'', txn_to = ''A'', txn_amount = 9007199254740991 / 2\<rparr>,
      \<lparr>txn_from = ''C'', txn_to = ''A'', txn_amount = 9007199254740991 / 2\<rparr>,
      \<lparr>txn_from = ''D'', txn_to = ''A'', txn_amount = 1 / 2\<rparr>]"
proof -
  have a: "fsub 9007199254740992 (9007199254740991 / 2) = 4503599627370496"
    using round53_tie by (simp add: fsub_def)
  have b: "fsub 4503599627370496 (9007199254740991 / 2) = 1 / 2"
    using round53_half by (simp add: fsub_def)
  have c: "fsub 1 (1 / 2) = 1 / 2"
    using round53_half by (simp add: fsub_def)
  show ?thesis
    by (simp add: optimize_payments_settle large_balances_def lit_0_01_value a b c)
qed

subsection \<open>The claims\<close>




text \<open>
  C5 (transfer count), as the code has it. For every balance dictionary with \<open>n\<close>
  participants the list of transfers has at most \<open>n - 1\<close> elements when \<open>n \<ge> 1\<close>, and none
  when \<open>n = 0\<close>: its length is at most \<open>max 0 (n - 1)\<close>.
\<close>

theorem transfer_count:
  "int (length (optimize_payments rs)) \<le> max 0 (int (length rs) - 1)"
proof -
  have "length (optimize_payments rs)
      \<le> length (fst (classify rs)) + length (snd (classify rs)) - 1"
    using length_settle [of fsub "sort_key (\<lambda>x. - amount x) (fst (classify rs))"
        "sort_key (\<lambda>x. - amount x) (snd (classify rs))"]
    by (simp add: optimize_payments_settle)
  with length_classify [of rs] show ?thesis by linarith
qed

text \<open>
  The claim as stated fails on the empty dictionary: it has \<open>n = 0\<close> participants and the
  empty list of transfers, whose length 0 is not at most \<open>n - 1 = -1\<close>.
\<close>

theorem transfer_count_counterexample:
  "\<not> int (length (optimize_payments [])) \<le> int (length ([] :: results)) - 1"
  by (simp add: optimize_payments_settle)

text \<open>
  C6 (unbalanced input), as the code has it. \<open>optimize_payments\<close> validates nothing. Whatever
  the balances sum to, it returns at least one transfer exactly when some balance is
  below \<open>-0.01\<close> and some balance is above \<open>0.01\<close>. When the balances are doubles that are
  whole numbers of one unit \<open>2^k\<close>, at most \<open>2^53\<close> units each, so that no subtraction of the
  loop rounds, the amounts of the list add up to the smaller of the debtors' total and
  the creditors' total, and the larger side keeps the difference.
\<close>

theorem transfers_without_validation:
  "(optimize_payments rs \<noteq> [] \<longleftrightarrow>
      (\<exists>p\<in>set rs. snd p < - lit_0_01) \<and> (\<exists>p\<in>set rs. snd p > lit_0_01))
   \<and> ((\<forall>p\<in>set rs. on_grid k (snd p)) \<longrightarrow>
        sum_list (map txn_amount (optimize_payments rs)) = min (debt_total rs) (credit_total rs))"
proof (intro conjI impI)
  have d: "fst (classify rs) \<noteq> [] \<longleftrightarrow> (\<exists>p\<in>set rs. snd p < - lit_0_01)"
    by (simp add: classify_debtors filter_empty_conv)
  have c: "snd (classify rs) \<noteq> [] \<longleftrightarrow> (\<exists>p\<in>set rs. snd p > lit_0_01)"
    using lit_0_01_bounds(2) by (force simp: classify_creditors filter_empty_conv)
  have e: "sort_key f es = [] \<longleftrightarrow> es = []" for f :: "entry \<Rightarrow> real" and es
    using length_sort [of f es] by (metis length_0_conv)
  have "optimize_payments rs \<noteq> [] \<longleftrightarrow> fst (classify rs) \<noteq> [] \<and> snd (classify rs) \<noteq> []"
    by (simp add: optimize_payments_settle settle_empty e)
  with d c show "optimize_payments rs \<noteq> [] \<longleftrightarrow>
      (\<exists>p\<in>set rs. snd p < - lit_0_01) \<and> (\<exists>p\<in>set rs. snd p > lit_0_01)"
    by simp
next
  assume grid: "\<forall>p\<in>set rs. on_grid k (snd p)"
  have ex: "\<forall>a b::real. (-) a b = a - b" by simp
  show "sum_list (map txn_amount (optimize_payments rs)) = min (debt_total rs) (credit_total rs)"
    using settle_total [OF ex, of "sort_key (\<lambda>x. - amount x) (fst (classify rs))"
        "sort_key (\<lambda>x. - amount x) (snd (classify rs))"] debtors_pos [of rs] creditors_pos [of rs]
    by (simp add: optimize_payments_exact [OF grid] debt_total_def credit_total_def total_sort)
qed

text \<open>
  The claim as stated fails: the balances \<open>A: 30, B: -10\<close> sum to 20, yet the optimizer
  returns the transfer of 10 from B to A, after which A is still owed 20.
\<close>

theorem validation_counterexample:
  "sum_list (map snd unbalanced) = 20
   \<and> optimize_payments unbalanced = [\<lparr>txn_from = ''B'', txn_to = ''A'', txn_amount = 10\<rparr>]
   \<and> settled_balances unbalanced ''A'' = 20
   \<and> settled_balances unbalanced ''B'' = 0"
  by (simp add: optimize_unbalanced settled_balances_def apply_transfers_def apply_transfer_def)
     (simp add: unbalanced_def)

theorem transfers_without_validation_witness:
  "on_grid 0 30 \<and> on_grid 0 (- 10)
   \<and> optimize_payments unbalanced \<noteq> []
   \<and> sum_list (map txn_amount (optimize_payments unbalanced)) = 10
   \<and> debt_total unbalanced = 10 \<and> credit_total unbalanced = 30"
proof -
  have g: "on_grid 0 30" "on_grid 0 (- 10)"
    by (simp_all add: on_grid_def)
  then have ga: "\<forall>p\<in>set unbalanced. on_grid 0 (snd p)"
    by (simp add: unbalanced_def)
  have t: "debt_total unbalanced = 10" "credit_total unbalanced = 30"
    by (simp_all add: debt_total_def credit_total_def unbalanced_def lit_0_01_value)
  from transfers_without_validation [of unbalanced 0] ga
  have "optimize_payments unbalanced \<noteq> []"
    and "sum_list (map txn_amount (optimize_payments unbalanced))
          = min (debt_total unbalanced) (credit_total unbalanced)"
    by (simp_all add: unbalanced_def lit_0_01_value)
  with g t show ?thesis by simp
qed

text \<open>
  Without the condition on the balances the sum is not that minimum: on \<open>large_balances\<close>
  both totals are \<open>2^53\<close> and the amounts add up to \<open>2^53 - 1/2\<close>.
\<close>

lemma total_transferred_rounded:
  "sum_list (map txn_amount (optimize_payments large_balances)) = 9007199254740992 - 1 / 2
   \<and> min (debt_total large_balances) (credit_total large_balances) = 9007199254740992"
  by (simp add: optimize_large)
     (simp add: debt_total_def credit_total_def large_balances_def lit_0_01_value)



end
